theory Spec2Isabelle
  imports Complex_Main "HOL-Library.Multiset"
begin

section \<open>Data model (types.ts, IncidentTable.tsx)\<close>

text \<open>
  JavaScript numbers that the typed part of the program handles (\<open>seconds\<close>,
  \<open>currentTime\<close>, slider values) are finite doubles, modelled by their real values.
  Where the rounding of an operation can change what the program decides, in the
  distance test of the active incident, the operation is modelled with its rounding.
  The one place where a not-a-number value matters, the duration of the media element,
  has a type of its own further down.
\<close>

datatype Severity = LOW | MEDIUM | HIGH

text \<open>The string value of each enum member (\<open>LOW = "Low"\<close>, ...).\<close>

fun severity_str :: "Severity \<Rightarrow> string" where
  "severity_str LOW = ''Low''"
| "severity_str MEDIUM = ''Medium''"
| "severity_str HIGH = ''High''"

record Incident =
  id :: string
  timestamp :: string
  seconds :: real
  severity :: Severity
  description :: string

record FilterState =
  f_low :: bool
  f_medium :: bool
  f_high :: bool

text \<open>\<open>filters[sev]\<close>: the property lookup on the filter object.\<close>

fun lookup_filter :: "FilterState \<Rightarrow> Severity \<Rightarrow> bool" where
  "lookup_filter fs LOW = f_low fs"
| "lookup_filter fs MEDIUM = f_medium fs"
| "lookup_filter fs HIGH = f_high fs"

definition all_true :: FilterState where
  "all_true = \<lparr>f_low = True, f_medium = True, f_high = True\<rparr>"

section \<open>Incident filter and projection (IncidentTable.tsx)\<close>

text \<open>
  \<open>Array.prototype.sort(cmp)\<close> is a built-in of the language: it sorts stably by the
  comparator, an element \<open>a\<close> staying before \<open>b\<close> unless \<open>cmp(a, b) > 0\<close>. It is modelled
  by a stable insertion sort driven by the comparator.
\<close>

fun insert_cmp :: "('a \<Rightarrow> 'a \<Rightarrow> real) \<Rightarrow> 'a \<Rightarrow> 'a list \<Rightarrow> 'a list" where
  "insert_cmp cmp x [] = [x]"
| "insert_cmp cmp x (y # ys) =
     (if cmp x y \<le> 0 then x # y # ys else y # insert_cmp cmp x ys)"

fun array_sort :: "('a \<Rightarrow> 'a \<Rightarrow> real) \<Rightarrow> 'a list \<Rightarrow> 'a list" where
  "array_sort cmp [] = []"
| "array_sort cmp (x # xs) = insert_cmp cmp x (array_sort cmp xs)"

text \<open>The comparator of the source: \<open>(a, b) => a.seconds - b.seconds\<close>.\<close>

definition by_seconds :: "Incident \<Rightarrow> Incident \<Rightarrow> real" where
  "by_seconds a b = seconds a - seconds b"

text \<open>
  \<open>incidents.filter(inc => filters[inc.severity]).sort((a, b) => a.seconds - b.seconds)\<close>
\<close>

definition filteredIncidents :: "Incident list \<Rightarrow> FilterState \<Rightarrow> Incident list" where
  "filteredIncidents incidents filters =
     array_sort by_seconds (filter (\<lambda>inc. lookup_filter filters (severity inc)) incidents)"

text \<open>\<open>Array.prototype.find\<close>: the first element satisfying the predicate, if any.\<close>

fun array_find :: "('a \<Rightarrow> bool) \<Rightarrow> 'a list \<Rightarrow> 'a option" where
  "array_find p [] = None"
| "array_find p (x # xs) = (if p x then Some x else array_find p xs)"

text \<open>
  Double-precision arithmetic. A double is an integer of magnitude below \<open>2^53\<close> times a
  power of two; in the binade \<open>[2^e, 2^(e+1))\<close> the doubles are the multiples of
  \<open>2^(e-52)\<close>, and below \<open>2^-1022\<close> the multiples of \<open>2^-1074\<close>. The result of an
  operation is the exact result rounded to the nearest double, a tie going to the even
  multiple. (A result beyond the largest double is infinite in the program and a large
  real here; a comparison with 3 comes out the same.)
\<close>

definition round_even :: "real \<Rightarrow> int" where
  "round_even y =
     (let n = \<lfloor>y\<rfloor>; r = y - of_int n
      in if r < 1 / 2 then n else if 1 / 2 < r then n + 1 else if even n then n else n + 1)"

definition binade :: "real \<Rightarrow> int" where
  "binade x = max (- 1022) \<lfloor>log 2 \<bar>x\<bar>\<rfloor>"

definition ulp :: "real \<Rightarrow> real" where
  "ulp x = 2 powr (of_int (binade x) - 52)"

definition round_double :: "real \<Rightarrow> real" where
  "round_double x = (if x = 0 then 0 else of_int (round_even (x / ulp x)) * ulp x)"

text \<open>
  \<open>inc => Math.abs(currentTime - inc.seconds) < 3\<close>: the subtraction rounds, the
  absolute value and the comparison are exact.
\<close>

definition near :: "real \<Rightarrow> Incident \<Rightarrow> bool" where
  "near currentTime inc \<longleftrightarrow> \<bar>round_double (currentTime - seconds inc)\<bar> < 3"

text \<open>
  \<open>incidents.find(inc => Math.abs(currentTime - inc.seconds) < 3)?.id\<close>;
  \<open>None\<close> stands for \<open>undefined\<close>.
\<close>

definition activeIncident :: "Incident list \<Rightarrow> real \<Rightarrow> Incident option" where
  "activeIncident incidents currentTime = array_find (near currentTime) incidents"

definition activeIncidentId :: "Incident list \<Rightarrow> real \<Rightarrow> string option" where
  "activeIncidentId incidents currentTime = map_option id (activeIncident incidents currentTime)"

text \<open>
  The values the table component derives from its props on each render. The filter
  state is a prop of the component, so the derived active id is a function of the whole
  props record.
\<close>

record TableProps =
  p_incidents :: "Incident list"
  p_currentTime :: real
  p_filters :: FilterState

definition table_filtered :: "TableProps \<Rightarrow> Incident list" where
  "table_filtered p = filteredIncidents (p_incidents p) (p_filters p)"

definition table_activeId :: "TableProps \<Rightarrow> string option" where
  "table_activeId p = activeIncidentId (p_incidents p) (p_currentTime p)"

text \<open>
  An incident at second 30 of severity High, with High switched off in the filters:
  at time 32 it is active although the visible list is empty; at times 33 and 34 it is
  not (the distance 3 is excluded).
\<close>

definition inc30 :: Incident where
  "inc30 = \<lparr>id = ''inc-0-1700000000000'', timestamp = ''00:30'', seconds = 30,
            severity = HIGH, description = ''x''\<rparr>"

definition props30 :: "real \<Rightarrow> TableProps" where
  "props30 t = \<lparr>p_incidents = [inc30], p_currentTime = t,
                p_filters = \<lparr>f_low = True, f_medium = True, f_high = False\<rparr>\<rparr>"

text \<open>An incident at second 3, for the current time \<open>2^-60\<close>.\<close>

definition inc3 :: Incident where
  "inc3 = \<lparr>id = ''inc-0-1700000000000'', timestamp = ''00:03'', seconds = 3,
           severity = LOW, description = ''y''\<rparr>"

section \<open>Export operations (IncidentTable.tsx)\<close>

text \<open>\<open>Array.prototype.join(sep)\<close> on an array of strings.\<close>

fun array_join :: "string \<Rightarrow> string list \<Rightarrow> string" where
  "array_join sep [] = []"
| "array_join sep [x] = x"
| "array_join sep (x # y # ys) = x @ sep @ array_join sep (y # ys)"

definition newline :: string where
  "newline = [CHR 0x0A]"

definition dquote :: string where
  "dquote = [CHR 0x22]"

definition headers :: "string list" where
  "headers = [''Timestamp'', ''Severity'', ''Description'']"

text \<open>\<open>inc => [inc.timestamp, inc.severity, `"${inc.description}"`]\<close>\<close>

definition csv_cells :: "Incident \<Rightarrow> string list" where
  "csv_cells inc = [timestamp inc, severity_str (severity inc), dquote @ description inc @ dquote]"

text \<open>
  \<open>handleExportCSV\<close>: the text of the blob that is offered for download,
  \<open>[headers.join(','), ...rows.map(r => r.join(','))].join('\n')\<close>, and the file name.
\<close>

definition csvContent :: "Incident list \<Rightarrow> string" where
  "csvContent filtered =
     array_join newline (array_join '','' headers # map (array_join '','') (map csv_cells filtered))"

definition handleExportCSV :: "TableProps \<Rightarrow> string \<times> string" where
  "handleExportCSV p = (''surveillance_report.csv'', csvContent (table_filtered p))"

text \<open>
  \<open>handleCopy\<close>: the text written to the clipboard,
  \<open>filteredIncidents.map(inc => `[${inc.timestamp}] ${inc.severity}: ${inc.description}`).join('\n')\<close>.
\<close>

definition copy_line :: "Incident \<Rightarrow> string" where
  "copy_line inc =
     ''['' @ timestamp inc @ ''] '' @ severity_str (severity inc) @ '': '' @ description inc"

definition handleCopy :: "TableProps \<Rightarrow> string" where
  "handleCopy p = array_join newline (map copy_line (table_filtered p))"

text \<open>
  The clipboard line as the specification words it, \<open>[severity] timestamp: description\<close>,
  for comparison with \<open>copy_line\<close>.
\<close>

definition spec_copy_line :: "Incident \<Rightarrow> string" where
  "spec_copy_line inc =
     ''['' @ severity_str (severity inc) @ ''] '' @ timestamp inc @ '': '' @ description inc"

definition spec_copy_text :: "Incident list \<Rightarrow> string" where
  "spec_copy_text filtered = array_join newline (map spec_copy_line filtered)"

text \<open>Lines of the exports written out, for stating what the exports contain.\<close>

definition csv_row :: "Incident \<Rightarrow> string" where
  "csv_row inc =
     timestamp inc @ '','' @ severity_str (severity inc) @ '','' @ dquote @ description inc @ dquote"

fun unlines_after :: "string \<Rightarrow> string list \<Rightarrow> string" where
  "unlines_after first [] = first"
| "unlines_after first (l # ls) = first @ newline @ unlines_after l ls"

definition props_two :: TableProps where
  "props_two = \<lparr>p_incidents =
       [\<lparr>id = ''inc-0-1700000000000'', timestamp = ''00:40'', seconds = 40,
          severity = MEDIUM, description = ''pushing''\<rparr>,
        \<lparr>id = ''inc-1-1700000000000'', timestamp = ''00:05'', seconds = 5,
          severity = HIGH, description = ''x''\<rparr>,
        \<lparr>id = ''inc-2-1700000000000'', timestamp = ''00:09'', seconds = 9,
          severity = LOW, description = ''shouting''\<rparr>],
     p_currentTime = 0,
     p_filters = \<lparr>f_low = False, f_medium = True, f_high = True\<rparr>\<rparr>"

section \<open>Analysis client (services/geminiService.ts)\<close>

text \<open>What the program reads of a browser \<open>File\<close>: its name, declared media type and size in bytes.\<close>

record File =
  f_name :: string
  f_type :: string
  f_size :: nat

text \<open>\<open>String.prototype.startsWith\<close> and \<open>String.prototype.includes\<close> (named \<open>str_includes\<close> here).\<close>

definition startsWith :: "string \<Rightarrow> string \<Rightarrow> bool" where
  "startsWith s pre \<longleftrightarrow> take (length pre) s = pre"

fun str_includes :: "string \<Rightarrow> string \<Rightarrow> bool" where
  "str_includes [] sub \<longleftrightarrow> sub = []"
| "str_includes (c # cs) sub \<longleftrightarrow> startsWith (c # cs) sub \<or> str_includes cs sub"

text \<open>
  The key is a non-empty string literal in the source; its characters are not reproduced
  here, only its being non-empty is read by the program.
\<close>

definition API_KEY :: string where
  "API_KEY = ''AIza''"

text \<open>
  Values produced by \<open>JSON.parse\<close>. A property read gives \<open>undefined\<close> (\<open>None\<close>) when the
  property is absent; reading a property of \<open>null\<close> throws a \<open>TypeError\<close>.
\<close>

datatype json =
    JNull
  | JBool bool
  | JNum real
  | JStr string
  | JArr "json list"
  | JObj "(string \<times> json) list"

text \<open>
  The parts of the platform one call depends on: whether the \<open>FileReader\<close> succeeds, what
  the service call gives (a thrown error's message, or the response text), \<open>JSON.parse\<close>
  (the message of its \<open>SyntaxError\<close>, or the value), the message of the \<open>TypeError\<close> for a
  property read on \<open>null\<close>, and the value of \<open>Date.now()\<close> at the i-th callback of \<open>map\<close>.
\<close>

record Env =
  read_ok :: bool
  response :: "string + string"
  parse :: "string \<Rightarrow> string + json"
  type_error :: "string \<Rightarrow> string"
  clock :: "nat \<Rightarrow> nat"

text \<open>
  \<open>v.name\<close> for the property names this program reads (\<open>summary\<close>, \<open>incidents\<close>,
  \<open>timestamp\<close>, \<open>seconds\<close>, \<open>severity\<close>, \<open>description\<close>): an object built by \<open>JSON.parse\<close>
  has the properties of its text, a later duplicate key replacing an earlier one;
  numbers, booleans, strings and arrays have no property of these names.
\<close>

fun get_prop :: "Env \<Rightarrow> json \<Rightarrow> string \<Rightarrow> string + json option" where
  "get_prop env JNull name = Inl (type_error env name)"
| "get_prop env (JObj kvs) name = Inr (map_of (rev kvs) name)"
| "get_prop env _ name = Inr None"

text \<open>Truthiness, as \<open>!v\<close> and \<open>v || d\<close> test it.\<close>

fun truthy :: "json option \<Rightarrow> bool" where
  "truthy None = False"
| "truthy (Some JNull) = False"
| "truthy (Some (JBool b)) = b"
| "truthy (Some (JNum r)) = (r \<noteq> 0)"
| "truthy (Some (JStr t)) = (t \<noteq> [])"
| "truthy (Some (JArr _)) = True"
| "truthy (Some (JObj _)) = True"

text \<open>\<open>Array.isArray(v)\<close>, returning the elements.\<close>

fun as_array :: "json option \<Rightarrow> json list option" where
  "as_array (Some (JArr items)) = Some items"
| "as_array _ = None"

text \<open>Decimal rendering of a non-negative integer in a template literal.\<close>

definition digit_char :: "nat \<Rightarrow> char" where
  "digit_char d = ''0123456789'' ! d"

fun show_nat :: "nat \<Rightarrow> string" where
  "show_nat n = (if n < 10 then [digit_char n] else show_nat (n div 10) @ [digit_char (n mod 10)])"

declare show_nat.simps [simp del]

text \<open>
  The incident objects as the client builds them: the id is synthesized, the four other
  fields are whatever the response element holds under these names (the source casts
  them without a check).
\<close>

record RawIncident =
  r_id :: string
  r_timestamp :: "json option"
  r_seconds :: "json option"
  r_severity :: "json option"
  r_description :: "json option"

record RawResult =
  r_summary :: "json option"
  r_incidents :: "RawIncident list"

text \<open>
  The callback of \<open>parsedData.incidents.map((inc, index) => ({ id: `inc-${index}-${Date.now()}`, ... }))\<close>.
\<close>

definition make_incident :: "Env \<Rightarrow> nat \<Rightarrow> json \<Rightarrow> string + RawIncident" where
  "make_incident env index inc =
     (let ident = ''inc-'' @ show_nat index @ ''-'' @ show_nat (clock env index) in
      case get_prop env inc ''timestamp'' of Inl e \<Rightarrow> Inl e | Inr ts \<Rightarrow>
      case get_prop env inc ''seconds'' of Inl e \<Rightarrow> Inl e | Inr secs \<Rightarrow>
      case get_prop env inc ''severity'' of Inl e \<Rightarrow> Inl e | Inr sev \<Rightarrow>
      case get_prop env inc ''description'' of Inl e \<Rightarrow> Inl e | Inr descr \<Rightarrow>
        Inr \<lparr>r_id = ident, r_timestamp = ts, r_seconds = secs,
             r_severity = sev, r_description = descr\<rparr>)"

fun map_incidents :: "Env \<Rightarrow> nat \<Rightarrow> json list \<Rightarrow> string + RawIncident list" where
  "map_incidents env index [] = Inr []"
| "map_incidents env index (inc # rest) =
     (case make_incident env index inc of
        Inl e \<Rightarrow> Inl e
      | Inr r \<Rightarrow>
          (case map_incidents env (Suc index) rest of
             Inl e \<Rightarrow> Inl e
           | Inr rs \<Rightarrow> Inr (r # rs)))"

text \<open>
  Response handling, from the test of the response text to the returned result
  (inside the \<open>try\<close>): \<open>Inl\<close> carries the message of the error thrown.
\<close>

definition handle_response :: "Env \<Rightarrow> string \<Rightarrow> string + RawResult" where
  "handle_response env text =
     (if text = [] then Inl ''No response from Gemini API''
      else case parse env text of
        Inl syntax_error \<Rightarrow> Inl syntax_error
      | Inr parsedData \<Rightarrow>
          (case get_prop env parsedData ''summary'' of
             Inl e \<Rightarrow> Inl e
           | Inr summ \<Rightarrow>
               if \<not> truthy summ then Inl ''Invalid response format from Gemini API''
               else (case get_prop env parsedData ''incidents'' of
                  Inl e \<Rightarrow> Inl e
                | Inr incs \<Rightarrow>
                    (case as_array incs of
                       None \<Rightarrow> Inl ''Invalid response format from Gemini API''
                     | Some items \<Rightarrow>
                         (case map_incidents env 0 items of
                            Inl e \<Rightarrow> Inl e
                          | Inr rs \<Rightarrow>
                              Inr \<lparr>r_summary =
                                     (if truthy summ then summ
                                      else Some (JStr ''Analysis complete.'')),
                                   r_incidents = rs\<rparr>)))))"

text \<open>The \<open>catch\<close> block: the message of the error that is thrown on.\<close>

definition catch_handler :: "string \<Rightarrow> string" where
  "catch_handler message =
     (if str_includes message ''API_KEY_INVALID''
        then ''Invalid API key. Please check your Gemini API key configuration.''
      else if str_includes message ''quota''
        then ''API quota exceeded. Please try again later.''
      else if str_includes message ''Failed to read file''
        then ''Failed to read the video file. Please try again.''
      else if message = []
        then ''Failed to analyze video. Please try again or check the file format.''
      else message)"

text \<open>Effects on the outside world, in the order they are attempted.\<close>

datatype Effect = ReadFile | NetworkCall

definition maxSize_analysis :: nat where
  "maxSize_analysis = 50 * 1024 * 1024"

definition try_body :: "File \<Rightarrow> Env \<Rightarrow> Effect list \<times> (string + RawResult)" where
  "try_body f env =
     (if \<not> read_ok env then ([ReadFile], Inl ''Failed to read file'')
      else case response env of
        Inl thrown \<Rightarrow> ([ReadFile, NetworkCall], Inl thrown)
      | Inr text \<Rightarrow> ([ReadFile, NetworkCall], handle_response env text))"

definition analyzeVideoWithGemini :: "File \<Rightarrow> Env \<Rightarrow> Effect list \<times> (string + RawResult)" where
  "analyzeVideoWithGemini f env =
     (if API_KEY = [] then ([], Inl ''API Key not found in environment variables'')
      else if \<not> startsWith (f_type f) ''video/''
        then ([], Inl ''Invalid file type. Please upload a video file.'')
      else if f_size f > maxSize_analysis
        then ([], Inl ''File size exceeds 50MB limit. Please use a smaller video.'')
      else case try_body f env of
        (effects, Inl message) \<Rightarrow> (effects, Inl (catch_handler message))
      | (effects, Inr result) \<Rightarrow> (effects, Inr result))"

section \<open>Application state (App.tsx)\<close>

datatype AppState = UPLOAD | ANALYZING | RESULTS | ERROR

text \<open>A JavaScript number that may be not-a-number: the duration of a media element.\<close>

datatype jsnum = NaN | Num real

record AnalysisResult =
  summary :: string
  incidents :: "Incident list"

text \<open>
  The seek trigger \<open>{ time, timestamp }\<close> is an object: besides its two fields it has an
  identity, which is what a dependency comparison looks at. \<open>ref\<close> is that identity;
  the field \<open>timestamp\<close>, the nonce of the request, is named \<open>nonce\<close>.
\<close>

record SeekRequest =
  ref :: nat
  time :: real
  nonce :: nat

text \<open>
  The state hooks of \<open>App\<close> (the hook \<open>file\<close> is named \<open>fileRef\<close>), and two parts of the platform that its handlers act on: the
  object URLs minted by \<open>URL.createObjectURL\<close> and not revoked since, and the counter
  from which object identities are drawn.
\<close>

record App =
  appState :: AppState
  fileRef :: "File option"
  analysisResult :: "AnalysisResult option"
  errorMsg :: string
  videoUrl :: string
  currentVideoTime :: real
  videoDuration :: jsnum
  seekToRequest :: "SeekRequest option"
  filters :: FilterState
  objectUrls :: "string list"
  next_ref :: nat

definition init_app :: App where
  "init_app = \<lparr>appState = UPLOAD, fileRef = None, analysisResult = None, errorMsg = [],
     videoUrl = [], currentVideoTime = 0, videoDuration = Num 0, seekToRequest = None,
     filters = all_true, objectUrls = [], next_ref = 0\<rparr>"

definition maxSize_select :: nat where
  "maxSize_select = 75 * 1024 * 1024"

text \<open>\<open>validateAndSetFile\<close>; \<open>url\<close> is the string \<open>URL.createObjectURL(file)\<close> returns.\<close>

definition validateAndSetFile :: "File \<Rightarrow> string \<Rightarrow> App \<Rightarrow> App" where
  "validateAndSetFile f url s =
     (if \<not> startsWith (f_type f) ''video/''
        then s\<lparr>errorMsg := ''Please upload a valid video file (MP4, MOV, WebM).''\<rparr>
      else if f_size f > maxSize_select
        then s\<lparr>errorMsg := ''File size exceeds 75MB limit.''\<rparr>
      else s\<lparr>fileRef := Some f, videoUrl := url, errorMsg := [],
             objectUrls := url # objectUrls s\<rparr>)"

text \<open>
  \<open>startAnalysis\<close> up to its \<open>await\<close>, and its continuation once the awaited call has
  settled with \<open>outcome\<close> (\<open>Inl\<close> the message of the error thrown, \<open>Inr\<close> the result).
\<close>

definition startAnalysis_begin :: "App \<Rightarrow> App" where
  "startAnalysis_begin s =
     (case fileRef s of None \<Rightarrow> s | Some f \<Rightarrow> s\<lparr>appState := ANALYZING\<rparr>)"

definition startAnalysis_settle :: "string + AnalysisResult \<Rightarrow> App \<Rightarrow> App" where
  "startAnalysis_settle outcome s =
     (case outcome of
        Inr result \<Rightarrow> s\<lparr>analysisResult := Some result, appState := RESULTS\<rparr>
      | Inl message \<Rightarrow>
          s\<lparr>appState := ERROR,
            errorMsg := (if message = [] then ''An unexpected error occurred during analysis.''
                         else message)\<rparr>)"

definition handleReset :: "App \<Rightarrow> App" where
  "handleReset s =
     s\<lparr>appState := UPLOAD, fileRef := None, videoUrl := [], analysisResult := None,
       errorMsg := [], seekToRequest := None\<rparr>"

text \<open>
  \<open>(seconds) => setSeekToRequest({ time: seconds, timestamp: Date.now() })\<close>: a new object
  on every click.
\<close>

definition onIncidentClick :: "real \<Rightarrow> nat \<Rightarrow> App \<Rightarrow> App" where
  "onIncidentClick secs now s =
     s\<lparr>seekToRequest := Some \<lparr>ref = next_ref s, time = secs, nonce = now\<rparr>,
       next_ref := Suc (next_ref s)\<rparr>"

text \<open>\<open>onFilterChange({ ...filters, [sev]: !filters[sev] })\<close>\<close>

fun toggle :: "Severity \<Rightarrow> FilterState \<Rightarrow> FilterState" where
  "toggle LOW fs = fs\<lparr>f_low := \<not> f_low fs\<rparr>"
| "toggle MEDIUM fs = fs\<lparr>f_medium := \<not> f_medium fs\<rparr>"
| "toggle HIGH fs = fs\<lparr>f_high := \<not> f_high fs\<rparr>"

text \<open>
  The events of the page. Each handler is wired to a control of one view, and the view
  rendered is the one of \<open>appState\<close>; the continuation of \<open>startAnalysis\<close> runs while the
  awaited call is outstanding, which is in the analyzing view, where no control is
  rendered.
\<close>

datatype Event =
    SelectFile File string
  | ClickAnalyze
  | AnalysisSettled "string + AnalysisResult"
  | ClickReset
  | ClickGoBack
  | ClickIncident real nat
  | ToggleFilter Severity
  | TimeUpdate real
  | DurationChange jsnum

fun enabled :: "Event \<Rightarrow> App \<Rightarrow> bool" where
  "enabled (SelectFile f url) s \<longleftrightarrow> appState s = UPLOAD"
| "enabled ClickAnalyze s \<longleftrightarrow> appState s = UPLOAD"
| "enabled (AnalysisSettled outcome) s \<longleftrightarrow> appState s = ANALYZING"
| "enabled ClickReset s \<longleftrightarrow> appState s = UPLOAD \<or> appState s = RESULTS \<or> appState s = ERROR"
| "enabled ClickGoBack s \<longleftrightarrow> appState s = ERROR"
| "enabled (ClickIncident secs now) s \<longleftrightarrow> appState s = RESULTS"
| "enabled (ToggleFilter sev) s \<longleftrightarrow> appState s = RESULTS"
| "enabled (TimeUpdate t) s \<longleftrightarrow> appState s = RESULTS"
| "enabled (DurationChange d) s \<longleftrightarrow> appState s = RESULTS"

fun handler :: "Event \<Rightarrow> App \<Rightarrow> App" where
  "handler (SelectFile f url) s = validateAndSetFile f url s"
| "handler ClickAnalyze s = startAnalysis_begin s"
| "handler (AnalysisSettled outcome) s = startAnalysis_settle outcome s"
| "handler ClickReset s = handleReset s"
| "handler ClickGoBack s = s\<lparr>appState := UPLOAD\<rparr>"
| "handler (ClickIncident secs now) s = onIncidentClick secs now s"
| "handler (ToggleFilter sev) s = s\<lparr>filters := toggle sev (filters s)\<rparr>"
| "handler (TimeUpdate t) s = s\<lparr>currentVideoTime := t\<rparr>"
| "handler (DurationChange d) s = s\<lparr>videoDuration := d\<rparr>"

definition fire :: "Event \<Rightarrow> App \<Rightarrow> App option" where
  "fire e s = (if enabled e s then Some (handler e s) else None)"

fun run :: "Event list \<Rightarrow> App \<Rightarrow> App option" where
  "run [] s = Some s"
| "run (e # es) s = (case fire e s of None \<Rightarrow> None | Some s' \<Rightarrow> run es s')"

definition reachable :: "App \<Rightarrow> bool" where
  "reachable s \<longleftrightarrow> (\<exists>es. run es init_app = Some s)"

text \<open>Concrete files, results and runs used to exercise the theorems.\<close>

definition file10 :: File where
  "file10 = \<lparr>f_name = ''cam.mp4'', f_type = ''video/mp4'', f_size = 10 * 1024 * 1024\<rparr>"

definition file60 :: File where
  "file60 = \<lparr>f_name = ''long.mp4'', f_type = ''video/mp4'', f_size = 60 * 1024 * 1024\<rparr>"

definition file_txt :: File where
  "file_txt = \<lparr>f_name = ''notes.txt'', f_type = ''text/plain'', f_size = 10\<rparr>"

definition result1 :: AnalysisResult where
  "result1 = \<lparr>summary = ''ok'', incidents =
     [\<lparr>id = ''inc-0-1700000000000'', timestamp = ''00:05'', seconds = 5,
       severity = HIGH, description = ''x''\<rparr>]\<rparr>"

definition state_selected :: App where
  "state_selected = init_app\<lparr>fileRef := Some file10, videoUrl := ''blob:1'',
     objectUrls := [''blob:1'']\<rparr>"

definition trace_results :: "Event list" where
  "trace_results = [SelectFile file10 ''blob:1'', ClickAnalyze, AnalysisSettled (Inr result1),
     ToggleFilter LOW, ClickIncident 5 1700000000500]"

definition state_results :: App where
  "state_results = \<lparr>appState = RESULTS, fileRef = Some file10, analysisResult = Some result1,
     errorMsg = [], videoUrl = ''blob:1'', currentVideoTime = 0, videoDuration = Num 0,
     seekToRequest = Some \<lparr>ref = 0, time = 5, nonce = 1700000000500\<rparr>,
     filters = \<lparr>f_low = False, f_medium = True, f_high = True\<rparr>,
     objectUrls = [''blob:1''], next_ref = 1\<rparr>"

definition env_unused :: Env where
  "env_unused = \<lparr>read_ok = True, response = Inr [], parse = (\<lambda>t. Inl ''Unexpected end of JSON input''),
     type_error = (\<lambda>n. ''Cannot read properties of null''), clock = (\<lambda>i. 1700000000000)\<rparr>"

section \<open>Playback controller (components/VideoPlayer.tsx)\<close>

text \<open>
  The media element belongs to the platform. What the component reads and writes of it:
  the playback position, the duration (not-a-number while no media data is known), and
  the paused and muted flags. Assigning \<open>currentTime\<close> seeks: the platform moves the new
  position into the range from 0 to the duration when the duration is known (the
  specification's "clamps to [0, duration] implicitly via the underlying element"). \<open>play()\<close>
  leaves the paused state unless the platform refuses it (blocked autoplay), in which
  case its promise is rejected and the element stays paused.
\<close>

record Video =
  v_currentTime :: real
  v_duration :: jsnum
  v_paused :: bool
  v_muted :: bool

definition set_currentTime :: "real \<Rightarrow> Video \<Rightarrow> Video" where
  "set_currentTime t v =
     v\<lparr>v_currentTime := (case v_duration v of Num d \<Rightarrow> max 0 (min d t) | NaN \<Rightarrow> t)\<rparr>"

definition play :: "bool \<Rightarrow> Video \<Rightarrow> Video" where
  "play allowed v = (if allowed then v\<lparr>v_paused := False\<rparr> else v)"

definition pause :: "Video \<Rightarrow> Video" where
  "pause v = v\<lparr>v_paused := True\<rparr>"

text \<open>The element's own clock moving the position while it plays.\<close>

definition clock_advance :: "real \<Rightarrow> Video \<Rightarrow> Video" where
  "clock_advance t v = v\<lparr>v_currentTime := t\<rparr>"

text \<open>
  The component's state: the ref to the element (\<open>None\<close> for \<open>null\<close>), its four state
  hooks, and what the effect on \<open>[seekTo]\<close> remembers: the identity of the \<open>seekTo\<close> prop
  at its last run (\<open>None\<close> before the first run, \<open>Some None\<close> after a run with \<open>null\<close>).
\<close>

record Player =
  videoRef :: "Video option"
  isPlaying :: bool
  isMuted :: bool
  duration :: jsnum
  showControls :: bool
  prevDeps :: "nat option option"

text \<open>Calls of the two callback props, \<open>onTimeUpdate\<close> and \<open>onDurationChange\<close>.\<close>

datatype Upstream = OnTimeUpdate real | OnDurationChange jsnum

text \<open>The body of the effect on \<open>[seekTo]\<close>.\<close>

definition seekTo_effect :: "SeekRequest option \<Rightarrow> bool \<Rightarrow> Player \<Rightarrow> Player" where
  "seekTo_effect seekTo allowed p =
     (case seekTo of
        None \<Rightarrow> p
      | Some req \<Rightarrow>
          (case videoRef p of
             None \<Rightarrow> p
           | Some v \<Rightarrow>
               (let v1 = set_currentTime (time req) v in
                if v_paused v1
                  then p\<lparr>videoRef := Some (play allowed v1), isPlaying := True\<rparr>
                  else p\<lparr>videoRef := Some v1, isPlaying := True\<rparr>)))"

text \<open>
  A render with the prop \<open>seekTo\<close>: the effect runs when its dependency differs, by
  \<open>Object.is\<close>, from the one of its last run; for an object that is a difference of
  identity.
\<close>

definition commit_seekTo :: "SeekRequest option \<Rightarrow> bool \<Rightarrow> Player \<Rightarrow> Player" where
  "commit_seekTo seekTo allowed p =
     (if prevDeps p = Some (map_option ref seekTo) then p
      else (seekTo_effect seekTo allowed p)\<lparr>prevDeps := Some (map_option ref seekTo)\<rparr>)"

definition togglePlay :: "bool \<Rightarrow> Player \<Rightarrow> Player" where
  "togglePlay allowed p =
     (case videoRef p of
        None \<Rightarrow> p
      | Some v \<Rightarrow>
          if v_paused v then p\<lparr>videoRef := Some (play allowed v), isPlaying := True\<rparr>
          else p\<lparr>videoRef := Some (pause v), isPlaying := False\<rparr>)"

definition handleTimeUpdate :: "Player \<Rightarrow> Player \<times> Upstream list" where
  "handleTimeUpdate p =
     (case videoRef p of None \<Rightarrow> (p, []) | Some v \<Rightarrow> (p, [OnTimeUpdate (v_currentTime v)]))"

definition handleLoadedMetadata :: "Player \<Rightarrow> Player \<times> Upstream list" where
  "handleLoadedMetadata p =
     (case videoRef p of
        None \<Rightarrow> (p, [])
      | Some v \<Rightarrow> (let d = v_duration v in (p\<lparr>duration := d\<rparr>, [OnDurationChange d])))"

text \<open>\<open>handleSeek\<close>; \<open>t\<close> is the number \<open>parseFloat\<close> reads from the slider.\<close>

definition handleSeek :: "real \<Rightarrow> Player \<Rightarrow> Player \<times> Upstream list" where
  "handleSeek t p =
     (case videoRef p of
        None \<Rightarrow> (p, [])
      | Some v \<Rightarrow> (p\<lparr>videoRef := Some (set_currentTime t v)\<rparr>, [OnTimeUpdate t]))"

definition skip :: "real \<Rightarrow> Player \<Rightarrow> Player \<times> Upstream list" where
  "skip secs p =
     (case videoRef p of
        None \<Rightarrow> (p, [])
      | Some v \<Rightarrow> (p\<lparr>videoRef := Some (set_currentTime (v_currentTime v + secs) v)\<rparr>, []))"

text \<open>Concrete players and requests used to exercise the theorems.\<close>

definition player_at :: "real \<Rightarrow> jsnum \<Rightarrow> bool \<Rightarrow> Player" where
  "player_at t d paused =
     \<lparr>videoRef = Some \<lparr>v_currentTime = t, v_duration = d, v_paused = paused, v_muted = False\<rparr>,
      isPlaying = \<not> paused, isMuted = False, duration = Num 0, showControls = False,
      prevDeps = Some None\<rparr>"

definition request_a :: SeekRequest where
  "request_a = \<lparr>ref = 1, time = 30, nonce = 1700000001000\<rparr>"

definition request_b :: SeekRequest where
  "request_b = \<lparr>ref = 2, time = 30, nonce = 1700000001000\<rparr>"

text \<open>
  The player after the first request has been handled and the playback clock has moved
  on to second 50.
\<close>

definition player_later :: Player where
  "player_later =
     (let p1 = commit_seekTo (Some request_a) True (player_at 0 (Num 100) True)
      in p1\<lparr>videoRef := map_option (clock_advance 50) (videoRef p1)\<rparr>)"


definition ident :: "Env \<Rightarrow> nat \<Rightarrow> string" where
  "ident env index = ''inc-'' @ show_nat index @ ''-'' @ show_nat (clock env index)"





















section \<open>Properties of the projection\<close>

lemma mset_insert_cmp: "mset (insert_cmp cmp x ys) = add_mset x (mset ys)"
  by (induction ys) simp_all

lemma mset_array_sort: "mset (array_sort cmp xs) = mset xs"
  by (induction xs) (simp_all add: mset_insert_cmp)

lemma set_insert_cmp: "set (insert_cmp cmp x ys) = insert x (set ys)"
  by (induction ys) auto

lemma sorted_insert_by_seconds:
  "sorted (map seconds ys) \<Longrightarrow> sorted (map seconds (insert_cmp by_seconds x ys))"
  by (induction ys) (auto simp: by_seconds_def set_insert_cmp)

lemma sorted_array_sort: "sorted (map seconds (array_sort by_seconds xs))"
  by (induction xs) (simp_all add: sorted_insert_by_seconds)

lemma filter_insert_other:
  "seconds x \<noteq> k \<Longrightarrow>
   filter (\<lambda>i. seconds i = k) (insert_cmp by_seconds x ys) = filter (\<lambda>i. seconds i = k) ys"
  by (induction ys) simp_all

lemma filter_insert_same:
  "sorted (map seconds ys) \<Longrightarrow> seconds x = k \<Longrightarrow>
   filter (\<lambda>i. seconds i = k) (insert_cmp by_seconds x ys) = x # filter (\<lambda>i. seconds i = k) ys"
proof (induction ys)
  case Nil
  then show ?case by simp
next
  case (Cons y ys)
  show ?case
  proof (cases "by_seconds x y \<le> 0")
    case True
    with Cons.prems show ?thesis by simp
  next
    case False
    then have "seconds y < k" using Cons.prems by (simp add: by_seconds_def)
    moreover have "sorted (map seconds ys)" using Cons.prems by simp
    ultimately show ?thesis using False Cons.IH Cons.prems by simp
  qed
qed

lemma array_sort_stable:
  "filter (\<lambda>i. seconds i = k) (array_sort by_seconds xs) = filter (\<lambda>i. seconds i = k) xs"
proof (induction xs)
  case Nil
  show ?case by simp
next
  case (Cons x xs)
  show ?case
  proof (cases "seconds x = k")
    case True
    then show ?thesis
      using filter_insert_same [OF sorted_array_sort, of x k xs] Cons.IH by simp
  next
    case False
    then show ?thesis using filter_insert_other [of x k] Cons.IH by simp
  qed
qed

text \<open>
  C1. The list shown by the table holds exactly the incidents whose severity is switched
  on in the filter state (as a multiset, so with their multiplicities, and hence as a
  set), it is sorted non-decreasing by \<open>seconds\<close>, and the sort is stable: for every time
  value \<open>k\<close> the incidents with \<open>seconds = k\<close> appear in the order they had in the input.
\<close>

theorem C1_filteredIncidents:
  "mset (filteredIncidents incs fs)
     = filter_mset (\<lambda>inc. lookup_filter fs (severity inc)) (mset incs)
   \<and> set (filteredIncidents incs fs)
     = {inc. inc \<in> set incs \<and> lookup_filter fs (severity inc)}
   \<and> sorted (map seconds (filteredIncidents incs fs))
   \<and> (\<forall>k. filter (\<lambda>i. seconds i = k) (filteredIncidents incs fs)
          = filter (\<lambda>i. seconds i = k)
              (filter (\<lambda>inc. lookup_filter fs (severity inc)) incs))"
proof -
  let ?p = "\<lambda>inc. lookup_filter fs (severity inc)"
  have m: "mset (filteredIncidents incs fs) = filter_mset ?p (mset incs)"
    by (simp add: filteredIncidents_def mset_array_sort)
  have "set (filteredIncidents incs fs) = set_mset (filter_mset ?p (mset incs))"
    using m by (metis set_mset_mset)
  then have s: "set (filteredIncidents incs fs)
      = {inc. inc \<in> set incs \<and> ?p inc}"
    by auto
  have o: "sorted (map seconds (filteredIncidents incs fs))"
    by (simp add: filteredIncidents_def sorted_array_sort)
  have t: "\<forall>k. filter (\<lambda>i. seconds i = k) (filteredIncidents incs fs)
          = filter (\<lambda>i. seconds i = k) (filter ?p incs)"
    by (simp only: filteredIncidents_def array_sort_stable) simp
  from m s o t show ?thesis by blast
qed


lemma array_find_None: "array_find p xs = None \<longleftrightarrow> (\<forall>x\<in>set xs. \<not> p x)"
  by (induction xs) simp_all

lemma array_find_Some:
  "array_find p xs = Some a \<Longrightarrow> \<exists>pre post. xs = pre @ a # post \<and> p a \<and> (\<forall>x\<in>set pre. \<not> p x)"
proof (induction xs)
  case Nil
  then show ?case by simp
next
  case (Cons x xs)
  show ?case
  proof (cases "p x")
    case True
    with Cons.prems have "x = a" by simp
    with True have "x # xs = [] @ a # xs \<and> p a \<and> (\<forall>y\<in>set []. \<not> p y)" by simp
    then show ?thesis by blast
  next
    case False
    with Cons.prems have "array_find p xs = Some a" by simp
    from Cons.IH [OF this] obtain pre post
      where "xs = pre @ a # post" "p a" "\<forall>y\<in>set pre. \<not> p y" by blast
    with False have "x # xs = (x # pre) @ a # post \<and> p a \<and> (\<forall>y\<in>set (x # pre). \<not> p y)"
      by simp
    then show ?thesis by blast
  qed
qed

lemma round_even_err: "\<bar>of_int (round_even y) - y\<bar> \<le> 1 / 2"
proof -
  have "of_int \<lfloor>y\<rfloor> \<le> y" "y < of_int \<lfloor>y\<rfloor> + 1" by linarith+
  then show ?thesis unfolding round_even_def Let_def by (simp; linarith)
qed

lemma even_gap_up: "even (N::int) \<Longrightarrow> even n \<Longrightarrow> n < N \<Longrightarrow> n + 1 < N"
  by presburger

lemma even_gap_down: "even (N::int) \<Longrightarrow> odd n \<Longrightarrow> - N < n + 1 \<Longrightarrow> - N < n"
  by presburger

lemma round_even_lt:
  assumes "even N"
  shows "round_even y < N \<longleftrightarrow> y < of_int N - 1 / 2"
proof -
  define n where "n = \<lfloor>y\<rfloor>"
  define r where "r = y - of_int n"
  have y: "y = of_int n + r" and r: "0 \<le> r" "r < 1"
    unfolding r_def n_def by linarith+
  have re: "round_even y = (if r < 1 / 2 then n else if 1 / 2 < r then n + 1
      else if even n then n else n + 1)"
    by (simp add: round_even_def Let_def n_def r_def)
  have a: "y < of_int N - 1 / 2 \<longleftrightarrow> n < N" if "r < 1 / 2"
  proof
    assume "y < of_int N - 1 / 2"
    then have "real_of_int n < of_int N" using r y by linarith
    then show "n < N" by simp
  next
    assume "n < N"
    then have "real_of_int n + 1 \<le> of_int N" by linarith
    then show "y < of_int N - 1 / 2" using that y by linarith
  qed
  have b: "y < of_int N - 1 / 2 \<longleftrightarrow> n + 1 < N" if "1 / 2 \<le> r"
  proof
    assume "y < of_int N - 1 / 2"
    then have "real_of_int n + 1 < of_int N" using that y by linarith
    then show "n + 1 < N" by linarith
  next
    assume "n + 1 < N"
    then have "real_of_int n + 2 \<le> of_int N" by linarith
    then show "y < of_int N - 1 / 2" using r y by linarith
  qed
  consider "r < 1 / 2" | "1 / 2 < r" | "r = 1 / 2" "even n" | "r = 1 / 2" "odd n"
    by fastforce
  then show ?thesis
  proof cases
    case 1
    then show ?thesis using a re by simp
  next
    case 2
    then show ?thesis using b re by simp
  next
    case 3
    then have "round_even y = n" using re by simp
    moreover have "n < N \<longleftrightarrow> n + 1 < N" using even_gap_up [OF assms 3(2)] by auto
    ultimately show ?thesis using b 3 by simp
  next
    case 4
    then have "round_even y = n + 1" using re by simp
    then show ?thesis using b 4 by simp
  qed
qed


lemma round_even_gt:
  assumes "even N"
  shows "- N < round_even y \<longleftrightarrow> - of_int N + 1 / 2 < y"
proof -
  define n where "n = \<lfloor>y\<rfloor>"
  define r where "r = y - of_int n"
  have y: "y = of_int n + r" and r: "0 \<le> r" "r < 1"
    unfolding r_def n_def by linarith+
  have re: "round_even y = (if r < 1 / 2 then n else if 1 / 2 < r then n + 1
      else if even n then n else n + 1)"
    by (simp add: round_even_def Let_def n_def r_def)
  have a: "- of_int N + 1 / 2 < y \<longleftrightarrow> - N < n" if "r \<le> 1 / 2"
  proof
    assume "- of_int N + 1 / 2 < y"
    then have "- real_of_int N < of_int n" using that y by linarith
    then show "- N < n" by linarith
  next
    assume "- N < n"
    then have "- real_of_int N + 1 \<le> of_int n" by linarith
    then show "- of_int N + 1 / 2 < y" using r y by linarith
  qed
  have b: "- of_int N + 1 / 2 < y \<longleftrightarrow> - N < n + 1" if "1 / 2 < r"
  proof
    assume "- of_int N + 1 / 2 < y"
    then have "- real_of_int N < of_int n + 1" using r y by linarith
    then show "- N < n + 1" by linarith
  next
    assume "- N < n + 1"
    then have "- real_of_int N \<le> of_int n" by linarith
    then show "- of_int N + 1 / 2 < y" using that y by linarith
  qed
  consider "r < 1 / 2" | "1 / 2 < r" | "r = 1 / 2" "even n" | "r = 1 / 2" "odd n"
    by fastforce
  then show ?thesis
  proof cases
    case 1
    then show ?thesis using a re by simp
  next
    case 2
    then show ?thesis using b re by simp
  next
    case 3
    then have "round_even y = n" using re by simp
    then show ?thesis using a 3 by simp
  next
    case 4
    then have "round_even y = n + 1" using re by simp
    moreover have "- N < n + 1 \<longleftrightarrow> - N < n" using even_gap_down [OF assms 4(2)] by auto
    ultimately show ?thesis using a 4 by simp
  qed
qed

lemma ulp_pos: "0 < ulp x"
  by (simp add: ulp_def)

lemma round_double_err: "\<bar>round_double x - x\<bar> \<le> ulp x / 2"
proof (cases "x = 0")
  case True
  then show ?thesis using ulp_pos [of x] by (simp add: round_double_def)
next
  case False
  have "\<bar>of_int (round_even (x / ulp x)) - x / ulp x\<bar> * ulp x \<le> 1 / 2 * ulp x"
    using round_even_err [of "x / ulp x"] ulp_pos [of x] by (intro mult_right_mono) auto
  moreover have "\<bar>of_int (round_even (x / ulp x)) - x / ulp x\<bar> * ulp x
      = \<bar>of_int (round_even (x / ulp x)) * ulp x - x\<bar>"
  proof -
    have "(of_int (round_even (x / ulp x)) - x / ulp x) * ulp x
        = of_int (round_even (x / ulp x)) * ulp x - x"
      using ulp_pos [of x] by (simp add: left_diff_distrib)
    moreover have "\<bar>of_int (round_even (x / ulp x)) - x / ulp x\<bar> * ulp x
        = \<bar>(of_int (round_even (x / ulp x)) - x / ulp x) * ulp x\<bar>"
      using ulp_pos [of x] by (simp add: abs_mult)
    ultimately show ?thesis by simp
  qed
  ultimately show ?thesis using False by (simp add: round_double_def)
qed

lemma binade_mid:
  assumes "2 \<le> \<bar>x\<bar>" "\<bar>x\<bar> < 4"
  shows "binade x = 1"
proof -
  have "\<lfloor>log 2 \<bar>x\<bar>\<rfloor> = 1"
    using assms by (subst floor_log_eq_powr_iff) auto
  then show ?thesis by (simp add: binade_def)
qed

lemma ulp_mid:
  assumes "2 \<le> \<bar>x\<bar>" "\<bar>x\<bar> < 4"
  shows "ulp x = 1 / 2 ^ 51"
proof -
  have "ulp x = 2 powr (- 51)" using binade_mid [OF assms] by (simp add: ulp_def)
  also have "\<dots> = 1 / 2 ^ 51" by (simp add: powr_minus_divide powr_realpow [symmetric])
  finally show ?thesis .
qed

lemma ulp_small:
  assumes "x \<noteq> 0" "\<bar>x\<bar> < 2"
  shows "ulp x \<le> 1 / 2 ^ 52"
proof -
  have "log 2 \<bar>x\<bar> < 1" using assms by (simp add: log_less_iff)
  then have "\<lfloor>log 2 \<bar>x\<bar>\<rfloor> \<le> 0" by linarith
  then have "binade x \<le> 0" by (simp add: binade_def)
  then have "ulp x \<le> 2 powr (- 52)" by (simp add: ulp_def)
  also have "\<dots> = 1 / 2 ^ 52" by (simp add: powr_minus_divide powr_realpow [symmetric])
  finally show ?thesis .
qed

lemma ulp_large:
  assumes "4 \<le> \<bar>x\<bar>"
  shows "ulp x \<le> \<bar>x\<bar> / 2 ^ 52"
proof -
  have pos: "0 < \<bar>x\<bar>" using assms by linarith
  have "2 \<le> log 2 \<bar>x\<bar>" using assms by (simp add: le_log_iff)
  then have "binade x = \<lfloor>log 2 \<bar>x\<bar>\<rfloor>" by (simp add: binade_def max_def)
  then have "2 powr (of_int (binade x)) \<le> 2 powr (log 2 \<bar>x\<bar>)" by simp
  also have "\<dots> = \<bar>x\<bar>" using pos by simp
  finally have "2 powr (of_int (binade x)) \<le> \<bar>x\<bar>" .
  moreover have "ulp x = 2 powr (of_int (binade x)) / 2 ^ 52"
    by (simp add: ulp_def powr_diff powr_realpow [symmetric])
  ultimately show ?thesis by (simp add: divide_right_mono)
qed


lemma abs_above: "\<bar>r - x\<bar> \<le> u / 2 \<Longrightarrow> u \<le> c \<Longrightarrow> \<bar>r\<bar> \<le> \<bar>x\<bar> + c / 2" for r x u c :: real
  by linarith

lemma abs_below: "\<bar>r - x\<bar> \<le> u / 2 \<Longrightarrow> u \<le> c \<Longrightarrow> \<bar>x\<bar> - c / 2 \<le> \<bar>r\<bar>" for r x u c :: real
  by linarith

lemma round_double_lt_3: "\<bar>round_double x\<bar> < 3 \<longleftrightarrow> \<bar>x\<bar> < 3 - 1 / 2 ^ 52"
proof -
  consider "x = 0" | "x \<noteq> 0" "\<bar>x\<bar> < 2" | "2 \<le> \<bar>x\<bar>" "\<bar>x\<bar> < 4" | "4 \<le> \<bar>x\<bar>"
    by linarith
  then show ?thesis
  proof cases
    case 1
    then show ?thesis by (simp add: round_double_def)
  next
    case 2
    from abs_above [OF round_double_err ulp_small [OF 2]]
    have "\<bar>round_double x\<bar> \<le> \<bar>x\<bar> + (1 / 2 ^ 52) / 2" .
    with 2 show ?thesis by simp
  next
    case 3
    let ?N = "3 * 2 ^ 51 :: int"
    have u: "ulp x = 1 / 2 ^ 51" by (rule ulp_mid [OF 3])
    have x0: "x \<noteq> 0" using 3 by auto
    have ev: "even ?N" by simp
    have rd: "round_double x = of_int (round_even (x * 2 ^ 51)) / 2 ^ 51"
      using x0 by (simp add: round_double_def u)
    have "\<bar>round_double x\<bar> < 3 \<longleftrightarrow> round_double x < 3 \<and> - 3 < round_double x" by linarith
    also have "\<dots> \<longleftrightarrow> real_of_int (round_even (x * 2 ^ 51)) < of_int ?N
        \<and> - of_int ?N < real_of_int (round_even (x * 2 ^ 51))"
      unfolding rd by (simp add: field_simps)
    also have "\<dots> \<longleftrightarrow> round_even (x * 2 ^ 51) < ?N \<and> - ?N < round_even (x * 2 ^ 51)"
      by linarith
    also have "\<dots> \<longleftrightarrow> x * 2 ^ 51 < of_int ?N - 1 / 2 \<and> - of_int ?N + 1 / 2 < x * 2 ^ 51"
      using round_even_lt [OF ev, of "x * 2 ^ 51"] round_even_gt [OF ev, of "x * 2 ^ 51"]
      by simp
    also have "\<dots> \<longleftrightarrow> x < 3 - 1 / 2 ^ 52 \<and> - (3 - 1 / 2 ^ 52) < x"
      by (simp add: field_simps) 
    also have "\<dots> \<longleftrightarrow> \<bar>x\<bar> < 3 - 1 / 2 ^ 52" by linarith
    finally show ?thesis .
  next
    case 4
    from abs_below [OF round_double_err ulp_large [OF 4]]
    have "\<bar>x\<bar> - (\<bar>x\<bar> / 2 ^ 52) / 2 \<le> \<bar>round_double x\<bar>" .
    moreover have "3 < \<bar>x\<bar> - (\<bar>x\<bar> / 2 ^ 52) / 2" using 4 by simp
    ultimately show ?thesis using 4 by simp
  qed
qed


lemma round_even_of_int: "round_even (of_int z) = z"
  by (simp add: round_even_def)

lemma round_double_exact:
  assumes m: "\<bar>m\<bar> < 2 ^ 53" and e: "- 1074 \<le> e"
  shows "round_double (of_int m * 2 powr of_int e) = of_int m * 2 powr of_int e"
proof (cases "m = 0")
  case True
  then show ?thesis by (simp add: round_double_def)
next
  case False
  let ?x = "of_int m * 2 powr of_int e :: real"
  have x0: "?x \<noteq> 0" using False by simp
  have "\<bar>?x\<bar> = of_int \<bar>m\<bar> * 2 powr of_int e" by (simp add: abs_mult)
  also have "\<dots> < 2 ^ 53 * 2 powr of_int e"
  proof -
    have "real_of_int \<bar>m\<bar> < real_of_int (2 ^ 53)" using m by (simp only: of_int_less_iff)
    then have "real_of_int \<bar>m\<bar> < 2 ^ 53" by simp
    then show ?thesis by simp
  qed
  also have "\<dots> = 2 powr (of_int e + 53)" by (simp add: powr_add powr_realpow [symmetric])
  finally have "\<bar>?x\<bar> < 2 powr (of_int e + 53)" .
  then have "log 2 \<bar>?x\<bar> < of_int e + 53" using x0 by (simp add: log_less_iff)
  then have "\<lfloor>log 2 \<bar>?x\<bar>\<rfloor> \<le> e + 52" by linarith
  then have b: "binade ?x \<le> e + 52" using e by (simp add: binade_def)
  define k where "k = nat (e + 52 - binade ?x)"
  have k: "of_int e - (of_int (binade ?x) - 52) = real k" using b by (simp add: k_def)
  have "?x / ulp ?x = of_int m * 2 powr (of_int e - (of_int (binade ?x) - 52))"
    by (simp add: ulp_def powr_diff)
  also have "\<dots> = of_int (m * 2 ^ k)" unfolding k by (simp add: powr_realpow)
  finally have q: "?x / ulp ?x = of_int (m * 2 ^ k)" .
  have "round_double ?x = of_int (round_even (?x / ulp ?x)) * ulp ?x"
    using x0 by (simp add: round_double_def)
  also have "\<dots> = (?x / ulp ?x) * ulp ?x" unfolding q round_even_of_int ..
  also have "\<dots> = ?x" using ulp_pos [of ?x] by simp
  finally show ?thesis .
qed

lemma near_iff: "near ct inc \<longleftrightarrow> \<bar>ct - seconds inc\<bar> < 3 - 1 / 2 ^ 52"
  by (simp only: near_def round_double_lt_3)

text \<open>
  C2 (as amended). The active incident is the first incident of the unfiltered list, in
  its original order, for which the difference of the current time and its \<open>seconds\<close>, as
  computed in double precision, has an absolute value strictly below 3: when one is
  found, no incident before it in the list passes the test, and when none is found no
  incident of the list does; the id the table highlights is the id of that incident.
  The computed distance is below 3 exactly when the exact distance is below
  \<open>3 - 2^-52\<close>, so an incident at a distance of 3 or more is never active; the rounding
  leaves every double as it is. The selection does not read the filter state: changing
  the filters of the table's props leaves the active id unchanged.
\<close>

theorem C2_activeIncident:
  "(case activeIncident incs ct of
      None \<Rightarrow> (\<forall>inc\<in>set incs. \<not> \<bar>round_double (ct - seconds inc)\<bar> < 3)
    | Some a \<Rightarrow> (\<exists>pre post. incs = pre @ a # post
          \<and> \<bar>round_double (ct - seconds a)\<bar> < 3
          \<and> (\<forall>inc\<in>set pre. \<not> \<bar>round_double (ct - seconds inc)\<bar> < 3)))
   \<and> (\<forall>d. \<bar>round_double d\<bar> < 3 \<longleftrightarrow> \<bar>d\<bar> < 3 - 1 / 2 ^ 52)
   \<and> (\<forall>m e. \<bar>m\<bar> < 2 ^ 53 \<and> - 1074 \<le> e \<longrightarrow>
          round_double (of_int m * 2 powr of_int e) = of_int m * 2 powr of_int e)
   \<and> (\<forall>a. activeIncident incs ct = Some a \<longrightarrow> \<bar>ct - seconds a\<bar> < 3)
   \<and> activeIncidentId incs ct
        = map_option id (activeIncident incs ct)
   \<and> table_activeId (p\<lparr>p_filters := fs\<rparr>) = table_activeId p"
proof -
  have a: "(case activeIncident incs ct of
      None \<Rightarrow> (\<forall>inc\<in>set incs. \<not> \<bar>round_double (ct - seconds inc)\<bar> < 3)
    | Some a \<Rightarrow> (\<exists>pre post. incs = pre @ a # post
          \<and> \<bar>round_double (ct - seconds a)\<bar> < 3
          \<and> (\<forall>inc\<in>set pre. \<not> \<bar>round_double (ct - seconds inc)\<bar> < 3)))"
  proof (cases "activeIncident incs ct")
    case None
    then show ?thesis
      using array_find_None [of "near ct" incs]
      by (simp add: activeIncident_def near_def)
  next
    case (Some a)
    then show ?thesis
      using array_find_Some [of "near ct" incs a]
      by (simp add: activeIncident_def near_def)
  qed
  have r: "\<forall>d. \<bar>round_double d\<bar> < 3 \<longleftrightarrow> \<bar>d\<bar> < 3 - 1 / 2 ^ 52"
    by (simp only: round_double_lt_3) simp
  have x: "\<forall>m e. \<bar>m\<bar> < 2 ^ 53 \<and> - 1074 \<le> e \<longrightarrow>
          round_double (of_int m * 2 powr of_int e) = of_int m * 2 powr of_int e"
    using round_double_exact by blast
  have s: "\<forall>a. activeIncident incs ct = Some a \<longrightarrow> \<bar>ct - seconds a\<bar> < 3"
  proof (intro allI impI)
    fix a
    assume "activeIncident incs ct = Some a"
    from array_find_Some [OF this [unfolded activeIncident_def]]
    have "near ct a" by blast
    then have "\<bar>ct - seconds a\<bar> < 3 - 1 / 2 ^ 52" by (simp only: near_iff)
    then show "\<bar>ct - seconds a\<bar> < 3" by simp
  qed
  have b: "activeIncidentId incs ct
        = map_option id (activeIncident incs ct)"
    by (simp add: activeIncidentId_def)
  have c: "table_activeId (p\<lparr>p_filters := fs\<rparr>) = table_activeId p"
    by (simp add: table_activeId_def)
  from a r x s b c show ?thesis by blast
qed

theorem C2_activeIncident_witness:
  "activeIncident [inc30] 32 = Some inc30
   \<and> \<bar>round_double (32 - seconds inc30)\<bar> < 3
   \<and> table_activeId (props30 32) = Some ''inc-0-1700000000000''
   \<and> table_filtered (props30 32) = []
   \<and> table_activeId (props30 33) = None
   \<and> table_activeId (props30 34) = None"
proof -
  have v: "activeIncident [inc30] 32 = Some inc30"
    "table_activeId (props30 32) = Some ''inc-0-1700000000000''"
    "table_filtered (props30 32) = []"
    "table_activeId (props30 33) = None"
    "table_activeId (props30 34) = None"
    by (simp_all add: activeIncident_def activeIncidentId_def near_iff inc30_def props30_def
        table_activeId_def table_filtered_def filteredIncidents_def)
  from C2_activeIncident [where incs = "[inc30]" and ct = 32
      and p = "props30 32" and fs = all_true] v(1)
  have "\<bar>round_double (32 - seconds inc30)\<bar> < 3" by auto
  with v show ?thesis by simp
qed

text \<open>
  The claim as worded fails: at the current time \<open>2^-60\<close> the incident at second 3 is at
  a distance below 3, but the computed difference is rounded to \<open>-3\<close> and the incident is
  not active.
\<close>

theorem C2_rounding_counterexample:
  "\<bar>1 / 2 ^ 60 - seconds inc3\<bar> < 3
   \<and> activeIncident [inc3] (1 / 2 ^ 60) = None
   \<and> table_activeId \<lparr>p_incidents = [inc3], p_currentTime = 1 / 2 ^ 60, p_filters = all_true\<rparr>
       = None"
  by (simp add: activeIncident_def activeIncidentId_def table_activeId_def near_iff inc3_def)

section \<open>Properties of the exports\<close>

lemma array_join_Cons: "array_join sep (x # xs) = unlines_after x xs" if "sep = newline"
  using that by (induction xs arbitrary: x) simp_all

lemma join_cells: "array_join '','' (csv_cells inc) = csv_row inc"
  by (simp add: csv_cells_def csv_row_def)

text \<open>
  C8 (as amended). Both exports are computed from the filtered, sorted list of the table
  and keep its order. The CSV text is the header line \<open>Timestamp,Severity,Description\<close>
  followed by one line \<open>timestamp,severity,"description"\<close> per filtered incident, the
  lines separated by a newline. The clipboard text has one line per filtered incident
  of the form \<open>[timestamp] severity: description\<close>, joined by newlines.
\<close>

theorem C8_exports:
  "snd (handleExportCSV p)
     = unlines_after ''Timestamp,Severity,Description''
         (map csv_row (filteredIncidents (p_incidents p) (p_filters p)))
   \<and> handleCopy p
     = array_join newline
         (map (\<lambda>inc. ''['' @ timestamp inc @ ''] '' @ severity_str (severity inc)
                       @ '': '' @ description inc)
            (filteredIncidents (p_incidents p) (p_filters p)))"
proof -
  have "array_join '','' \<circ> csv_cells = csv_row"
    by (rule ext) (simp add: join_cells)
  then have "snd (handleExportCSV p)
     = unlines_after ''Timestamp,Severity,Description''
         (map csv_row (filteredIncidents (p_incidents p) (p_filters p)))"
    by (simp add: handleExportCSV_def csvContent_def array_join_Cons headers_def
        table_filtered_def)
  moreover have "handleCopy p
     = array_join newline
         (map (\<lambda>inc. ''['' @ timestamp inc @ ''] '' @ severity_str (severity inc)
                       @ '': '' @ description inc)
            (filteredIncidents (p_incidents p) (p_filters p)))"
    by (simp add: handleCopy_def table_filtered_def copy_line_def cong: map_cong)
  ultimately show ?thesis by blast
qed

text \<open>
  The claim as worded fails: with one visible incident at \<open>00:05\<close> of severity High the
  clipboard receives \<open>[00:05] High: x\<close>, not \<open>[High] 00:05: x\<close>.
\<close>

theorem C8_clipboard_counterexample:
  "handleCopy props_two \<noteq> spec_copy_text (table_filtered props_two)
   \<and> handleCopy \<lparr>p_incidents = [\<lparr>id = ''a'', timestamp = ''00:05'', seconds = 5,
          severity = HIGH, description = ''x''\<rparr>], p_currentTime = 0, p_filters = all_true\<rparr>
       = ''[00:05] High: x''"
  by (simp add: handleCopy_def spec_copy_text_def table_filtered_def props_two_def
      filteredIncidents_def by_seconds_def copy_line_def spec_copy_line_def newline_def
      all_true_def)


section \<open>Properties of the application state machine\<close>

lemma fire_pairs:
  assumes "fire e s = Some s'"
  shows "(appState s, appState s') \<in> {(UPLOAD, UPLOAD), (UPLOAD, ANALYZING),
      (ANALYZING, RESULTS), (ANALYZING, ERROR), (RESULTS, RESULTS), (RESULTS, UPLOAD),
      (ERROR, UPLOAD)}"
  using assms
  by (cases e)
     (auto simp: fire_def validateAndSetFile_def startAnalysis_begin_def
       startAnalysis_settle_def handleReset_def onIncidentClick_def
       split: if_splits option.splits sum.splits)

lemma fire_to_analyzing:
  assumes "fire e s = Some s'" "appState s' = ANALYZING"
  shows "appState s = UPLOAD \<and> fileRef s \<noteq> None \<and> e = ClickAnalyze"
  using assms
  by (cases e)
     (auto simp: fire_def validateAndSetFile_def startAnalysis_begin_def
       startAnalysis_settle_def handleReset_def onIncidentClick_def
       split: if_splits option.splits sum.splits)

lemma catch_handler_nonempty: "catch_handler message \<noteq> []"
  by (simp add: catch_handler_def)

lemma analyze_error_nonempty:
  assumes "snd (analyzeVideoWithGemini f env) = Inl m"
  shows "m \<noteq> []"
proof (cases "\<not> startsWith (f_type f) ''video/'' \<or> f_size f > maxSize_analysis")
  case True
  with assms show ?thesis
    by (auto simp: analyzeVideoWithGemini_def API_KEY_def split: if_splits)
next
  case False
  obtain effects r where t: "try_body f env = (effects, r)" by (cases "try_body f env")
  show ?thesis
  proof (cases r)
    case (Inl message)
    with assms False t have "m = catch_handler message"
      by (simp add: analyzeVideoWithGemini_def API_KEY_def)
    then show ?thesis by (simp add: catch_handler_nonempty)
  next
    case (Inr result)
    with assms False t show ?thesis
      by (simp add: analyzeVideoWithGemini_def API_KEY_def)
  qed
qed

text \<open>
  C3. Invoking start-analysis with no file leaves the state as it is; with a file it
  only sets the state to Analyzing. The continuation moves to Results and stores the
  result on success, and to Error on failure, the error message being the failure's
  message (a fixed fallback text when the failure carries none, which no failure of the
  analysis client does). Every transition of the
  page is one of Upload-Upload, Upload-Analyzing, Analyzing-Results, Analyzing-Error,
  Results-Results, Results-Upload and Error-Upload: in particular none leads from Upload
  to Results or Error, none from Results to Analyzing, and Analyzing is entered only from
  Upload, by start-analysis, with a file present.
\<close>

theorem C3_state_machine:
  "(fileRef s = None \<longrightarrow> startAnalysis_begin s = s)
   \<and> (fileRef s \<noteq> None \<longrightarrow> startAnalysis_begin s = s\<lparr>appState := ANALYZING\<rparr>)
   \<and> startAnalysis_settle (Inr r) s = s\<lparr>analysisResult := Some r, appState := RESULTS\<rparr>
   \<and> startAnalysis_settle (Inl m) s
       = s\<lparr>appState := ERROR,
           errorMsg := (if m = [] then ''An unexpected error occurred during analysis.'' else m)\<rparr>
   \<and> (snd (analyzeVideoWithGemini f env) = Inl m \<longrightarrow>
        m \<noteq> [] \<and> errorMsg (startAnalysis_settle (Inl m) s) = m)
   \<and> (fire e s = Some s' \<longrightarrow>
        (appState s, appState s') \<in> {(UPLOAD, UPLOAD), (UPLOAD, ANALYZING),
          (ANALYZING, RESULTS), (ANALYZING, ERROR), (RESULTS, RESULTS), (RESULTS, UPLOAD),
          (ERROR, UPLOAD)})
   \<and> (fire e s = Some s' \<and> appState s = UPLOAD \<longrightarrow>
        appState s' \<noteq> RESULTS \<and> appState s' \<noteq> ERROR)
   \<and> (fire e s = Some s' \<and> appState s = RESULTS \<longrightarrow> appState s' \<noteq> ANALYZING)
   \<and> (fire e s = Some s' \<and> appState s' = ANALYZING \<longrightarrow>
        appState s = UPLOAD \<and> fileRef s \<noteq> None \<and> e = ClickAnalyze)"
proof -
  have i: "snd (analyzeVideoWithGemini f env) = Inl m \<longrightarrow>
        m \<noteq> [] \<and> errorMsg (startAnalysis_settle (Inl m) s) = m"
    using analyze_error_nonempty [of f env m] by (simp add: startAnalysis_settle_def)
  have a: "fileRef s = None \<longrightarrow> startAnalysis_begin s = s"
    by (simp add: startAnalysis_begin_def)
  have b: "fileRef s \<noteq> None \<longrightarrow> startAnalysis_begin s = s\<lparr>appState := ANALYZING\<rparr>"
    by (auto simp: startAnalysis_begin_def)
  have c: "startAnalysis_settle (Inr r) s = s\<lparr>analysisResult := Some r, appState := RESULTS\<rparr>"
    by (simp add: startAnalysis_settle_def)
  have d: "startAnalysis_settle (Inl m) s
       = s\<lparr>appState := ERROR,
           errorMsg := (if m = [] then ''An unexpected error occurred during analysis.'' else m)\<rparr>"
    by (simp add: startAnalysis_settle_def)
  have e: "fire e s = Some s' \<longrightarrow>
        (appState s, appState s') \<in> {(UPLOAD, UPLOAD), (UPLOAD, ANALYZING),
          (ANALYZING, RESULTS), (ANALYZING, ERROR), (RESULTS, RESULTS), (RESULTS, UPLOAD),
          (ERROR, UPLOAD)}"
    using fire_pairs [of e s s'] by blast
  have f: "fire e s = Some s' \<and> appState s = UPLOAD \<longrightarrow>
        appState s' \<noteq> RESULTS \<and> appState s' \<noteq> ERROR"
    using fire_pairs [of e s s'] by auto
  have g: "fire e s = Some s' \<and> appState s = RESULTS \<longrightarrow> appState s' \<noteq> ANALYZING"
    using fire_pairs [of e s s'] by auto
  have h: "fire e s = Some s' \<and> appState s' = ANALYZING \<longrightarrow>
        appState s = UPLOAD \<and> fileRef s \<noteq> None \<and> e = ClickAnalyze"
    using fire_to_analyzing [of e s s'] by blast
  from a b c d i e f g h show ?thesis by blast
qed

theorem C3_state_machine_witness:
  "startAnalysis_begin init_app = init_app
   \<and> fire ClickAnalyze state_selected = Some (state_selected\<lparr>appState := ANALYZING\<rparr>)
   \<and> fire (AnalysisSettled (Inr result1)) (state_selected\<lparr>appState := ANALYZING\<rparr>)
       = Some (state_selected\<lparr>analysisResult := Some result1, appState := RESULTS\<rparr>)
   \<and> fire (AnalysisSettled (Inl ''API quota exceeded. Please try again later.''))
         (state_selected\<lparr>appState := ANALYZING\<rparr>)
       = Some (state_selected\<lparr>appState := ERROR,
           errorMsg := ''API quota exceeded. Please try again later.''\<rparr>)
   \<and> fire (AnalysisSettled (Inr result1)) state_selected = None
   \<and> fire ClickAnalyze (state_selected\<lparr>analysisResult := Some result1, appState := RESULTS\<rparr>)
       = None
   \<and> snd (analyzeVideoWithGemini file60 env_unused)
       = Inl ''File size exceeds 50MB limit. Please use a smaller video.''
   \<and> errorMsg (startAnalysis_settle
           (Inl ''File size exceeds 50MB limit. Please use a smaller video.'')
           (state_selected\<lparr>appState := ANALYZING\<rparr>))
       = ''File size exceeds 50MB limit. Please use a smaller video.''"
proof -
  have x: "snd (analyzeVideoWithGemini file60 env_unused)
       = Inl ''File size exceeds 50MB limit. Please use a smaller video.''"
    by (simp add: analyzeVideoWithGemini_def API_KEY_def startsWith_def file60_def
        maxSize_analysis_def)
  show ?thesis
    using C3_state_machine [where s = state_selected and e = ClickAnalyze
        and s' = "state_selected\<lparr>appState := ANALYZING\<rparr>" and r = result1
        and f = file60 and env = env_unused
        and m = "''File size exceeds 50MB limit. Please use a smaller video.''"]
    by (simp add: x fire_def startAnalysis_begin_def startAnalysis_settle_def
        state_selected_def init_app_def)
qed

section \<open>Properties of the two file checks\<close>

lemma API_KEY_present: "API_KEY \<noteq> []"
  by (simp add: API_KEY_def)

lemma fire_keeps_checked:
  assumes "fire e s = Some s'"
    and "\<forall>f. fileRef s = Some f \<longrightarrow> startsWith (f_type f) ''video/'' \<and> f_size f \<le> maxSize_select"
  shows "\<forall>f. fileRef s' = Some f \<longrightarrow> startsWith (f_type f) ''video/'' \<and> f_size f \<le> maxSize_select"
  using assms
  by (cases e)
     (auto simp: fire_def validateAndSetFile_def startAnalysis_begin_def
       startAnalysis_settle_def handleReset_def onIncidentClick_def
       split: if_splits option.splits sum.splits)

lemma run_keeps_checked:
  assumes "run es s = Some s'"
    and "\<forall>f. fileRef s = Some f \<longrightarrow> startsWith (f_type f) ''video/'' \<and> f_size f \<le> maxSize_select"
  shows "\<forall>f. fileRef s' = Some f \<longrightarrow> startsWith (f_type f) ''video/'' \<and> f_size f \<le> maxSize_select"
  using assms
proof (induction es arbitrary: s)
  case Nil
  then show ?case by simp
next
  case (Cons e es)
  from Cons.prems(1) obtain s1 where s1: "fire e s = Some s1" "run es s1 = Some s'"
    by (auto split: option.splits)
  from fire_keeps_checked [OF s1(1) Cons.prems(2)] Cons.IH [OF s1(2)] show ?case by blast
qed

lemma reachable_checked:
  assumes "reachable s" "fileRef s = Some f"
  shows "startsWith (f_type f) ''video/'' \<and> f_size f \<le> maxSize_select"
proof -
  from assms(1) obtain es where "run es init_app = Some s"
    by (auto simp: reachable_def)
  from run_keeps_checked [OF this] assms(2) show ?thesis
    by (simp add: init_app_def)
qed

text \<open>
  C4. A file whose declared type does not start with \<open>video/\<close>, or whose size is above
  50 MB, makes the analysis call fail with the message of the violated check before any
  effect is attempted: no file read and no network call. A file passing both checks does
  get its read attempted. At selection time a file of a non-video type or above 75 MB is
  refused (only the error message changes), any other is stored; so every file held by
  a reachable state has a video type and at most 75 MB.
\<close>

theorem C4_preconditions:
  "(\<not> startsWith (f_type f) ''video/'' \<or> f_size f > 50 * 1024 * 1024 \<longrightarrow>
      analyzeVideoWithGemini f env
        = ([], Inl (if \<not> startsWith (f_type f) ''video/''
                    then ''Invalid file type. Please upload a video file.''
                    else ''File size exceeds 50MB limit. Please use a smaller video.'')))
   \<and> (startsWith (f_type f) ''video/'' \<and> f_size f \<le> 50 * 1024 * 1024 \<longrightarrow>
      ReadFile \<in> set (fst (analyzeVideoWithGemini f env)))
   \<and> (\<not> startsWith (f_type f) ''video/'' \<or> f_size f > 75 * 1024 * 1024 \<longrightarrow>
      validateAndSetFile f url s
        = s\<lparr>errorMsg := (if \<not> startsWith (f_type f) ''video/''
                          then ''Please upload a valid video file (MP4, MOV, WebM).''
                          else ''File size exceeds 75MB limit.'')\<rparr>)
   \<and> (startsWith (f_type f) ''video/'' \<and> f_size f \<le> 75 * 1024 * 1024 \<longrightarrow>
      fileRef (validateAndSetFile f url s) = Some f)
   \<and> (reachable s \<and> fileRef s = Some f \<longrightarrow>
      startsWith (f_type f) ''video/'' \<and> f_size f \<le> 75 * 1024 * 1024)"
proof -
  have a: "\<not> startsWith (f_type f) ''video/'' \<or> f_size f > 50 * 1024 * 1024 \<longrightarrow>
      analyzeVideoWithGemini f env
        = ([], Inl (if \<not> startsWith (f_type f) ''video/''
                    then ''Invalid file type. Please upload a video file.''
                    else ''File size exceeds 50MB limit. Please use a smaller video.''))"
    by (simp add: analyzeVideoWithGemini_def API_KEY_present maxSize_analysis_def)
  have b: "startsWith (f_type f) ''video/'' \<and> f_size f \<le> 50 * 1024 * 1024 \<longrightarrow>
      ReadFile \<in> set (fst (analyzeVideoWithGemini f env))"
    by (simp add: analyzeVideoWithGemini_def API_KEY_present maxSize_analysis_def try_body_def
        split: sum.splits prod.splits)
  have c: "\<not> startsWith (f_type f) ''video/'' \<or> f_size f > 75 * 1024 * 1024 \<longrightarrow>
      validateAndSetFile f url s
        = s\<lparr>errorMsg := (if \<not> startsWith (f_type f) ''video/''
                          then ''Please upload a valid video file (MP4, MOV, WebM).''
                          else ''File size exceeds 75MB limit.'')\<rparr>"
    by (simp add: validateAndSetFile_def maxSize_select_def)
  have d: "startsWith (f_type f) ''video/'' \<and> f_size f \<le> 75 * 1024 * 1024 \<longrightarrow>
      fileRef (validateAndSetFile f url s) = Some f"
    by (simp add: validateAndSetFile_def maxSize_select_def)
  have e: "reachable s \<and> fileRef s = Some f \<longrightarrow>
      startsWith (f_type f) ''video/'' \<and> f_size f \<le> 75 * 1024 * 1024"
    using reachable_checked [of s f] by (simp add: maxSize_select_def)
  from a b c d e show ?thesis by blast
qed

theorem C4_preconditions_witness:
  "analyzeVideoWithGemini file_txt env_unused
     = ([], Inl ''Invalid file type. Please upload a video file.'')
   \<and> analyzeVideoWithGemini file60 env_unused
     = ([], Inl ''File size exceeds 50MB limit. Please use a smaller video.'')
   \<and> validateAndSetFile file_txt ''blob:2'' init_app
     = init_app\<lparr>errorMsg := ''Please upload a valid video file (MP4, MOV, WebM).''\<rparr>
   \<and> fileRef (validateAndSetFile file60 ''blob:2'' init_app) = Some file60
   \<and> reachable state_results
   \<and> fileRef state_results = Some file10"
proof -
  have r: "run trace_results init_app = Some state_results"
    by (simp add: trace_results_def init_app_def state_results_def fire_def
        validateAndSetFile_def startsWith_def file10_def maxSize_select_def
        startAnalysis_begin_def startAnalysis_settle_def onIncidentClick_def all_true_def)
  then have "reachable state_results"
    unfolding reachable_def by blast
  moreover have "\<not> startsWith (f_type file_txt) ''video/''"
    by (simp add: startsWith_def file_txt_def)
  moreover have "startsWith (f_type file60) ''video/''"
    by (simp add: startsWith_def file60_def)
  moreover have "f_size file60 > 50 * 1024 * 1024" "f_size file60 \<le> 75 * 1024 * 1024"
    by (simp_all add: file60_def)
  moreover have "fileRef state_results = Some file10"
    by (simp add: state_results_def)
  ultimately show ?thesis
    using C4_preconditions [of file_txt env_unused "''blob:2''" init_app]
      C4_preconditions [of file60 env_unused "''blob:2''" init_app]
      C4_preconditions [of file10 env_unused "''blob:1''" state_results]
    by simp
qed

section \<open>Properties of the reset\<close>

text \<open>
  C6 (as amended). The reset returns to Upload and clears the file reference, the
  preview URL held in the state (set to the empty string), the analysis result, the
  error message and the pending seek request. It leaves the platform's set of live
  object URLs as it was: the URL is dropped from the state, not revoked.
\<close>

theorem C6_handleReset:
  "appState (handleReset s) = UPLOAD
   \<and> fileRef (handleReset s) = None
   \<and> videoUrl (handleReset s) = []
   \<and> analysisResult (handleReset s) = None
   \<and> errorMsg (handleReset s) = []
   \<and> seekToRequest (handleReset s) = None
   \<and> objectUrls (handleReset s) = objectUrls s"
  by (simp add: handleReset_def)

text \<open>
  The claim as worded fails on a state reached by selecting a file, analysing it,
  switching the Low filter off and clicking an incident: after the reset the Low filter
  is still off and the object URL minted for the file is still live.
\<close>

theorem C6_reset_counterexample:
  "run trace_results init_app = Some state_results
   \<and> appState state_results = RESULTS
   \<and> filters (handleReset state_results) \<noteq> all_true
   \<and> videoUrl state_results \<in> set (objectUrls (handleReset state_results))"
  by (simp add: trace_results_def init_app_def state_results_def fire_def
      validateAndSetFile_def startsWith_def file10_def maxSize_select_def
      startAnalysis_begin_def startAnalysis_settle_def onIncidentClick_def all_true_def
      handleReset_def)


section \<open>Properties of the playback controller\<close>

text \<open>
  C7 (as amended). When the metadata event is handled, the duration stored locally and
  the duration reported upstream are both the element's duration as it is, whatever its
  value; nothing is reported when the element ref is empty.
\<close>

theorem C7_handleLoadedMetadata:
  "handleLoadedMetadata p =
     (case videoRef p of
        None \<Rightarrow> (p, [])
      | Some v \<Rightarrow> (p\<lparr>duration := v_duration v\<rparr>, [OnDurationChange (v_duration v)]))"
  by (simp add: handleLoadedMetadata_def Let_def split: option.splits)

text \<open>The claim as worded fails: a not-a-number duration is reported upstream as it is, not as 0.\<close>

theorem C7_nan_counterexample:
  "snd (handleLoadedMetadata (player_at 0 NaN True)) = [OnDurationChange NaN]
   \<and> snd (handleLoadedMetadata (player_at 0 NaN True)) \<noteq> [OnDurationChange (Num 0)]"
  by (simp add: handleLoadedMetadata_def player_at_def)


text \<open>
  C9 (as amended). With an element present, \<open>skip d\<close> leaves the player in the state
  \<open>seek\<close> to the element's position plus \<open>d\<close> leaves it in: in both the element moves the
  target into the range from 0 to the duration. They differ towards the observer: the
  seek handler reports the requested target to it at once, \<open>skip\<close> reports nothing, and
  the new position reaches the observer with the element's next time update. With no
  element neither does anything.
\<close>

theorem C9_skip_seek:
  "(videoRef p = Some v \<longrightarrow>
      fst (skip d p) = fst (handleSeek (v_currentTime v + d) p)
      \<and> snd (skip d p) = []
      \<and> handleSeek t p
          = (p\<lparr>videoRef := Some (v\<lparr>v_currentTime :=
                 (case v_duration v of Num dur \<Rightarrow> max 0 (min dur t) | NaN \<Rightarrow> t)\<rparr>)\<rparr>,
             [OnTimeUpdate t])
      \<and> (\<forall>dur. v_duration v = Num dur \<and> 0 \<le> dur \<longrightarrow>
            (\<exists>v'. videoRef (fst (handleSeek t p)) = Some v'
                  \<and> 0 \<le> v_currentTime v' \<and> v_currentTime v' \<le> dur))
      \<and> snd (handleTimeUpdate (fst (skip d p)))
          = [OnTimeUpdate (case v_duration v of
                Num dur \<Rightarrow> max 0 (min dur (v_currentTime v + d))
              | NaN \<Rightarrow> v_currentTime v + d)])
   \<and> (videoRef p = None \<longrightarrow> skip d p = (p, []) \<and> handleSeek t p = (p, []))"
proof -
  have a: "videoRef p = Some v \<longrightarrow>
      fst (skip d p) = fst (handleSeek (v_currentTime v + d) p) \<and> snd (skip d p) = []"
    by (simp add: skip_def handleSeek_def)
  have b: "videoRef p = Some v \<longrightarrow> handleSeek t p
          = (p\<lparr>videoRef := Some (v\<lparr>v_currentTime :=
                 (case v_duration v of Num dur \<Rightarrow> max 0 (min dur t) | NaN \<Rightarrow> t)\<rparr>)\<rparr>,
             [OnTimeUpdate t])"
    by (simp add: handleSeek_def set_currentTime_def)
  have c: "videoRef p = Some v \<longrightarrow> (\<forall>dur. v_duration v = Num dur \<and> 0 \<le> dur \<longrightarrow>
            (\<exists>v'. videoRef (fst (handleSeek t p)) = Some v'
                  \<and> 0 \<le> v_currentTime v' \<and> v_currentTime v' \<le> dur))"
    by (auto simp: handleSeek_def set_currentTime_def)
  have e: "videoRef p = Some v \<longrightarrow> snd (handleTimeUpdate (fst (skip d p)))
          = [OnTimeUpdate (case v_duration v of
                Num dur \<Rightarrow> max 0 (min dur (v_currentTime v + d))
              | NaN \<Rightarrow> v_currentTime v + d)]"
    by (simp add: skip_def handleTimeUpdate_def set_currentTime_def)
  have f: "videoRef p = None \<longrightarrow> skip d p = (p, []) \<and> handleSeek t p = (p, [])"
    by (simp add: skip_def handleSeek_def)
  from a b c e f show ?thesis by blast
qed

theorem C9_skip_seek_witness:
  "fst (skip 5 (player_at 98 (Num 100) False))
     = fst (handleSeek 103 (player_at 98 (Num 100) False))
   \<and> map_option v_currentTime (videoRef (fst (skip 5 (player_at 98 (Num 100) False))))
     = Some 100
   \<and> snd (handleSeek 103 (player_at 98 (Num 100) False)) = [OnTimeUpdate 103]
   \<and> snd (handleTimeUpdate (fst (skip 5 (player_at 98 (Num 100) False))))
     = [OnTimeUpdate 100]"
  using C9_skip_seek [where p = "player_at 98 (Num 100) False" and d = 5 and t = 103
      and v = "\<lparr>v_currentTime = 98, v_duration = Num 100, v_paused = False, v_muted = False\<rparr>"]
  by (simp add: player_at_def skip_def handleSeek_def handleTimeUpdate_def set_currentTime_def)

text \<open>
  The claim as worded fails: from second 10 of a 100 second video, \<open>skip 5\<close> reports
  nothing to the observer while the seek to second 15 reports 15.
\<close>

theorem C9_skip_counterexample:
  "skip 5 (player_at 10 (Num 100) False) \<noteq> handleSeek (10 + 5) (player_at 10 (Num 100) False)
   \<and> snd (skip 5 (player_at 10 (Num 100) False)) = []
   \<and> snd (handleSeek (10 + 5) (player_at 10 (Num 100) False)) = [OnTimeUpdate 15]"
  by (simp add: player_at_def skip_def handleSeek_def)

lemma commit_seekTo_fresh:
  assumes "videoRef p = Some v" "prevDeps p \<noteq> Some (Some (ref req))"
  shows "commit_seekTo (Some req) allowed p
     = p\<lparr>videoRef := Some (v\<lparr>v_currentTime :=
              (case v_duration v of Num dur \<Rightarrow> max 0 (min dur (time req)) | NaN \<Rightarrow> time req),
            v_paused := v_paused v \<and> \<not> allowed\<rparr>),
         isPlaying := True, prevDeps := Some (Some (ref req))\<rparr>"
  using assms
  by (cases "v_paused v"; cases allowed)
     (simp_all add: commit_seekTo_def seekTo_effect_def set_currentTime_def play_def Let_def)

lemma commit_seekTo_deps: "prevDeps (commit_seekTo seekTo allowed p) = Some (map_option ref seekTo)"
  by (simp add: commit_seekTo_def)

text \<open>
  C10 (as amended). When a seek request object other than the one last handled arrives
  and the element is present, the controller seeks to the request's target (moved into
  the range of the media by the element), sets the play indicator, and, if the element
  was paused, requests playback, which starts unless the platform refuses it; an
  element that was playing keeps playing. Handling is idempotent per request object:
  receiving the object that was handled last changes nothing, so receiving a request
  twice in a row seeks once.
\<close>

theorem C10_seek_request:
  "(videoRef p = Some v \<and> prevDeps p \<noteq> Some (Some (ref req)) \<longrightarrow>
      commit_seekTo (Some req) allowed p
        = p\<lparr>videoRef := Some (v\<lparr>v_currentTime :=
                 (case v_duration v of Num dur \<Rightarrow> max 0 (min dur (time req))
                  | NaN \<Rightarrow> time req),
               v_paused := v_paused v \<and> \<not> allowed\<rparr>),
            isPlaying := True, prevDeps := Some (Some (ref req))\<rparr>)
   \<and> (prevDeps p = Some (Some (ref req)) \<longrightarrow> commit_seekTo (Some req) allowed p = p)
   \<and> commit_seekTo (Some req) allowed' (commit_seekTo (Some req) allowed p)
       = commit_seekTo (Some req) allowed p"
proof -
  have a: "videoRef p = Some v \<and> prevDeps p \<noteq> Some (Some (ref req)) \<longrightarrow>
      commit_seekTo (Some req) allowed p
        = p\<lparr>videoRef := Some (v\<lparr>v_currentTime :=
                 (case v_duration v of Num dur \<Rightarrow> max 0 (min dur (time req))
                  | NaN \<Rightarrow> time req),
               v_paused := v_paused v \<and> \<not> allowed\<rparr>),
            isPlaying := True, prevDeps := Some (Some (ref req))\<rparr>"
    using commit_seekTo_fresh [of p v req allowed] by blast
  have b: "prevDeps p = Some (Some (ref req)) \<longrightarrow> commit_seekTo (Some req) allowed p = p"
    by (simp add: commit_seekTo_def)
  have "prevDeps (commit_seekTo (Some req) allowed p) = Some (Some (ref req))"
    by (simp add: commit_seekTo_deps)
  then have c: "commit_seekTo (Some req) allowed' (commit_seekTo (Some req) allowed p)
       = commit_seekTo (Some req) allowed p"
    by (simp add: commit_seekTo_def)
  from a b c show ?thesis by blast
qed

theorem C10_seek_request_witness:
  "commit_seekTo (Some request_a) True (player_at 0 (Num 100) True)
     = \<lparr>videoRef = Some \<lparr>v_currentTime = 30, v_duration = Num 100, v_paused = False,
                          v_muted = False\<rparr>,
        isPlaying = True, isMuted = False, duration = Num 0, showControls = False,
        prevDeps = Some (Some 1)\<rparr>
   \<and> commit_seekTo (Some request_a) True
        (commit_seekTo (Some request_a) True (player_at 0 (Num 100) True))
     = commit_seekTo (Some request_a) True (player_at 0 (Num 100) True)"
  using C10_seek_request [where p = "player_at 0 (Num 100) True" and req = request_a
      and allowed = True and allowed' = True
      and v = "\<lparr>v_currentTime = 0, v_duration = Num 100, v_paused = True, v_muted = False\<rparr>"]
  by (simp add: player_at_def request_a_def commit_seekTo_def seekTo_effect_def
      set_currentTime_def play_def Let_def)

text \<open>
  The claim as worded fails: two clicks on the incident at second 30 for which
  \<open>Date.now()\<close> gives the same value (it reads the wall clock, in milliseconds or
  coarser, and the wall clock can be set back) make two request objects with the same
  nonce. After the first has been handled and playback has moved on to second 50, the
  second one, carrying the nonce already received, seeks back to second 30.
\<close>

theorem C10_nonce_counterexample:
  "seekToRequest (onIncidentClick 30 1700000001000 state_results) = Some request_a
   \<and> seekToRequest (onIncidentClick 30 1700000001000
        (onIncidentClick 30 1700000001000 state_results)) = Some request_b
   \<and> nonce request_a = nonce request_b
   \<and> map_option v_currentTime (videoRef player_later) = Some 50
   \<and> map_option v_currentTime (videoRef (commit_seekTo (Some request_b) True player_later))
       = Some 30
   \<and> commit_seekTo (Some request_b) True player_later \<noteq> player_later"
  by (simp add: onIncidentClick_def state_results_def request_a_def request_b_def
      player_later_def player_at_def commit_seekTo_def seekTo_effect_def set_currentTime_def
      play_def clock_advance_def Let_def)


section \<open>Properties of the response handling\<close>











lemma get_prop_Inr: "x \<noteq> JNull \<Longrightarrow> \<exists>v. get_prop env x name = Inr v"
  by (cases x) simp_all























end
